theory Spec2Isabelle
  imports Main
begin

section \<open>JavaScript values\<close>

text \<open>
  The values the three source files handle: the primitives, arrays, and objects as maps
  from property names to values. Numbers are the integers and \<open>Infinity\<close> (the only
  non-integer the sources mention, as the default \<open>concurrency\<close>). An object that
  cannot be changed (frozen, or not extensible) is \<open>JFrozen\<close>; \<open>JBoxed v props\<close> is a
  value that is not a plain object but carries own properties: the wrapper object
  \<open>Object(v)\<close> of a primitive \<open>v\<close>, or an array \<open>v\<close>, with the properties \<open>props\<close>
  assigned to it.
\<close>

datatype jsval =
    JUndefined
  | JNull
  | JBool bool
  | JNum int
  | JInfinity
  | JStr string
  | JArr "jsval list"
  | JObj "string \<Rightarrow> jsval option"
  | JFrozen "string \<Rightarrow> jsval option"
  | JBoxed jsval "string \<Rightarrow> jsval option"

type_synonym obj = "string \<Rightarrow> jsval option"

text \<open>\<open>Boolean(v)\<close>: the falsy values are undefined, null, false, 0 and the empty string.\<close>

fun truthy :: "jsval \<Rightarrow> bool" where
  "truthy JUndefined = False"
| "truthy JNull = False"
| "truthy (JBool b) = b"
| "truthy (JNum n) = (n \<noteq> 0)"
| "truthy JInfinity = True"
| "truthy (JStr s) = (s \<noteq> [])"
| "truthy (JArr xs) = True"
| "truthy (JObj m) = True"
| "truthy (JFrozen m) = True"
| "truthy (JBoxed v m) = True"

text \<open>Reading a property of an object: a missing key reads as undefined.\<close>

definition get_prop :: "obj \<Rightarrow> string \<Rightarrow> jsval" where
  "get_prop m k = (case m k of None \<Rightarrow> JUndefined | Some v \<Rightarrow> v)"

definition type_error :: "string \<Rightarrow> obj" where
  "type_error msg = [''name'' \<mapsto> JStr ''TypeError'', ''message'' \<mapsto> JStr msg]"

text \<open>
  \<open>v.k\<close> for a property name \<open>k\<close> that only an object of the program can carry (not
  \<open>length\<close>, an index or a method of a prototype): reading it from undefined or null
  throws a TypeError, a primitive or an array has no such property.
\<close>

fun read_property :: "jsval \<Rightarrow> string \<Rightarrow> obj + jsval" where
  "read_property JUndefined k = Inl (type_error ''Cannot read property of undefined'')"
| "read_property JNull k = Inl (type_error ''Cannot read property of null'')"
| "read_property (JObj m) k = Inr (get_prop m k)"
| "read_property (JFrozen m) k = Inr (get_prop m k)"
| "read_property (JBoxed v m) k = Inr (get_prop m k)"
| "read_property v k = Inr JUndefined"

text \<open>\<open>a && b\<close>\<close>

definition js_and :: "jsval \<Rightarrow> jsval \<Rightarrow> jsval" where
  "js_and a b = (if truthy a then b else a)"

section \<open>hela-dev: createBuildConfig\<close>

text \<open>
  The options record of \<open>createBuildConfig\<close>. Only \<open>env\<close> has a default, so it is the one
  field whose absence matters: \<open>None\<close> is an options object without an \<open>env\<close> key, and
  \<open>Some v\<close> one whose \<open>env\<close> is \<open>v\<close>, any value (also undefined or null). \<open>mono\<close> and
  \<open>cwd\<close> are read as they are (undefined when absent).
\<close>

record build_options =
  mono :: jsval
  env :: "jsval option"
  cwd :: jsval

record runner_babel =
  outDir :: string
  babel :: jsval

record build_config =
  displayName :: string
  testEnvironment :: string
  testMatch :: "string list"
  testPathIgnorePatterns :: "string list"
  haste :: runner_babel
  runner :: string
  moduleFileExtensions :: "string list"
  rootDir :: jsval

definition default_env :: obj where
  "default_env = [''NODE_ENV'' \<mapsto> JStr ''main'']"

text \<open>
  \<open>Object.assign({ env: { NODE_ENV: 'main' } }, options)\<close> followed by \<open>opts.env\<close>: an
  \<open>env\<close> key of the options replaces the default, whatever its value.
\<close>

definition effective_env :: "build_options \<Rightarrow> jsval" where
  "effective_env options = (case env options of None \<Rightarrow> JObj default_env | Some v \<Rightarrow> v)"

text \<open>
  \<open>babelConfig\<close> is the imported module \<open>../babel\<close>, a parameter here. The field
  \<open>haste\<close> of the result has the single key \<open>@tunnckocore/jest-runner-babel\<close>, whose
  value is the record \<open>runner_babel\<close>. Reading \<open>opts.env.NODE_ENV\<close> throws when \<open>opts.env\<close>
  is undefined or null, and then no configuration is returned.
\<close>

definition createBuildConfig :: "obj \<Rightarrow> build_options \<Rightarrow> obj + build_config" where
  "createBuildConfig babelConfig options =
     (let match = (if truthy (mono options) then ''packages/*/src/**/*'' else ''src/**/*'') in
      case read_property (effective_env options) ''NODE_ENV'' of
        Inl e \<Rightarrow> Inl e
      | Inr node_env \<Rightarrow>
          Inr \<lparr> displayName = (if node_env = JStr ''module'' then ''build:esm'' else ''build:cjs''),
                testEnvironment = ''node'',
                testMatch = [''<rootDir>/'' @ match],
                testPathIgnorePatterns = [''.+/__tests__/.+'', ''.+/dist/.+''],
                haste = \<lparr> outDir = (if node_env = JStr ''module''
                                      then ''dist/build/module'' else ''dist/build/main''),
                          babel = js_and (get_prop babelConfig ''default'') (JObj babelConfig) \<rparr>,
                runner = ''@tunnckocore/jest-runner-babel'',
                moduleFileExtensions = [''ts'', ''tsx'', ''js'', ''jsx'', ''mjs'', ''json''],
                rootDir = cwd options \<rparr>)"

section \<open>hela-core: the task runner\<close>

text \<open>
  The state a promise ends in: resolved with a value, rejected with the thrown value, or
  never settled. A function called by the task runner either returns a value (\<open>Inr\<close>) or
  throws, or rejects with, a value (\<open>Inl\<close>): any value can be thrown.
\<close>

datatype promise = Resolved jsval | Rejected jsval | Pending

type_synonym user_fn = "jsval list \<Rightarrow> jsval + jsval"

text \<open>\<open>Object.assign(target, source)\<close> on objects: the keys of the source win.\<close>

definition object_assign :: "obj \<Rightarrow> obj \<Rightarrow> obj" where
  "object_assign target source = target ++ source"

text \<open>
  \<open>Object.assign(target, source)\<close> for any target: undefined and null cannot be
  converted to an object and a frozen object accepts no property, so the call throws
  a TypeError; a primitive is wrapped in a new object that receives the properties; an
  array receives them beside its elements. The result is the target object.
\<close>

fun assign_to :: "jsval \<Rightarrow> obj \<Rightarrow> obj + jsval" where
  "assign_to JUndefined source = Inl (type_error ''Cannot convert undefined or null to object'')"
| "assign_to JNull source = Inl (type_error ''Cannot convert undefined or null to object'')"
| "assign_to (JObj m) source = Inr (JObj (object_assign m source))"
| "assign_to (JFrozen m) source =
     (if source = Map.empty then Inr (JFrozen m)
      else Inl (type_error ''Cannot add property, object is not extensible''))"
| "assign_to (JBoxed v m) source = Inr (JBoxed v (object_assign m source))"
| "assign_to v source = Inr (JBoxed v source)"

subsection \<open>action\<close>

text \<open>
  The part of the Sade instance that \<open>action\<close> reads and writes: the name of the task
  being defined (\<open>curr\<close>, empty when none is) and the task table \<open>tree\<close>. A task holds
  its registered options (rows \<open>[flag, description, default]\<close>), its default argument
  values and its handler. The handler that \<open>action\<close> stores is the closure
  \<open>async (...args) => ...\<close> over the task name and the user function, kept here as
  that pair; \<open>commands[name]\<close> is the same object as \<open>tree[name]\<close>, so \<open>commands\<close>
  keeps the names only.
\<close>

record task =
  task_options :: "jsval list list"
  task_default :: obj
  task_handler :: "(string \<times> user_fn) option"

record prog =
  curr :: string
  tree :: "string \<Rightarrow> task option"
  commands :: "string list"

text \<open>
  The task \<open>action\<close> works on, \<open>this.curr || '__default__'\<close>, and the task Sade's
  \<open>option\<close> writes to, \<open>this.curr || '__all__'\<close> (Sade's table of global options when no
  task is being defined).
\<close>

definition action_name :: "prog \<Rightarrow> string" where
  "action_name p = (if curr p = [] then ''__default__'' else curr p)"

definition option_target :: "prog \<Rightarrow> string" where
  "option_target p = (if curr p = [] then ''__all__'' else curr p)"

text \<open>
  Sade's \<open>option(str, desc, val)\<close> for a flag without alias and with a default value, the
  way \<open>action\<close> calls it: the row is pushed on the options of the task being defined
  and the default is stored under the flag's name without its dashes. Sade is a
  dependency of the repository; this is the one method of it that \<open>action\<close> calls.
\<close>

definition option_sade :: "string \<Rightarrow> string \<Rightarrow> jsval \<Rightarrow> prog \<Rightarrow> obj + prog" where
  "option_sade str desc val p =
     (let target = option_target p;
          flag = dropWhile (\<lambda>c. c = CHR ''-'') str
      in case tree p target of
           None \<Rightarrow> Inl (type_error ''Cannot read property of undefined'')
         | Some cmd \<Rightarrow>
             Inr (p\<lparr> tree := (tree p)(target \<mapsto>
                    cmd\<lparr> task_default := (task_default cmd)(flag \<mapsto> val),
                         task_options := task_options cmd @ [[JStr (''--'' @ flag), JStr desc, val]] \<rparr>) \<rparr>))"

text \<open>
  The closure stored as handler, called with \<open>args\<close> while the task object is \<open>taskObj\<close>:
  \<open>fakeArgv = Object.assign({}, taskObj.default, { _: [name] })\<close> and
  \<open>fn.apply(this, args.concat(fakeArgv))\<close>.
\<close>

definition fakeArgv :: "task \<Rightarrow> string \<Rightarrow> obj" where
  "fakeArgv taskObj name = object_assign (task_default taskObj) [''_'' \<mapsto> JArr [JStr name]]"

definition wrapped_handler :: "task \<Rightarrow> string \<times> user_fn \<Rightarrow> jsval list \<Rightarrow> jsval + jsval" where
  "wrapped_handler taskObj h args =
     (case h of (name, fn) \<Rightarrow> fn (args @ [JObj (fakeArgv taskObj name)]))"

text \<open>
  \<open>action(fn)\<close>; \<open>fn\<close> is \<open>None\<close> when the argument is not a function, and \<open>proc_cwd\<close> is
  what \<open>proc.cwd()\<close> returns. The result is the new state and the handler returned.
  Copying the program's properties onto the handler, and the removal and restoration of
  \<open>this.name\<close> around it, change neither.
\<close>

definition action :: "string \<Rightarrow> user_fn option \<Rightarrow> prog \<Rightarrow> obj + (prog \<times> (string \<times> user_fn))" where
  "action proc_cwd fn p =
     (let name = action_name p in
      case tree p name of
        None \<Rightarrow> Inl (type_error ''Cannot read property of undefined'')
      | Some taskObj \<Rightarrow>
          (let p1 = (case fn of
                       Some f \<Rightarrow> p\<lparr> tree := (tree p)(name \<mapsto> taskObj\<lparr> task_handler := Some (name, f) \<rparr>) \<rparr>
                     | None \<Rightarrow> p)
           in case option_sade ''--cwd'' ''Current working directory'' (JStr proc_cwd) p1 of
                Inl e \<Rightarrow> Inl e
              | Inr p2 \<Rightarrow>
                  (let p3 = p2\<lparr> commands := List.insert name (commands p2) \<rparr> in
                   case tree p3 name of
                     None \<Rightarrow> Inl (type_error ''Cannot read property of undefined'')
                   | Some t \<Rightarrow>
                       (case task_handler t of
                          None \<Rightarrow> Inl (type_error ''Cannot convert undefined or null to object'')
                        | Some h \<Rightarrow> Inr (p3, h)))))"

subsection \<open>listen\<close>

text \<open>
  What \<open>prog.parse(proc.argv, opts)\<close> returns in lazy mode: nothing (\<open>None\<close>), or the
  arguments (an array, when present), the task name and the handler (a function, when
  present).
\<close>

record parse_result =
  result_args :: "jsval list option"
  result_name :: jsval
  result_handler :: "user_fn option"

text \<open>
  The \<open>catch\<close> block of \<open>listen\<close>, for the caught value \<open>err\<close>: \<open>args.pop()\<close> removes and
  returns the last element (undefined on an empty array, a TypeError when \<open>args\<close> is
  undefined), so \<open>commandArgs\<close> is what is left of \<open>args\<close>; then \<open>Object.assign(err, ...)\<close>
  attaches the three fields, or throws. The result is the value the block throws.
\<close>

definition enrich :: "jsval list option \<Rightarrow> jsval \<Rightarrow> jsval \<Rightarrow> jsval" where
  "enrich args name err =
     (case args of
        None \<Rightarrow> JObj (type_error ''Cannot read property pop of undefined'')
      | Some xs \<Rightarrow>
          (case assign_to err
                  [''commandArgv'' \<mapsto> (if xs = [] then JUndefined else last xs),
                   ''commandArgs'' \<mapsto> JArr (butlast xs),
                   ''commandName'' \<mapsto> name] of
             Inl type_err \<Rightarrow> JObj type_err
           | Inr error \<Rightarrow> error))"

text \<open>
  \<open>listen()\<close>, from the parse result on. The second component lists the calls of the
  handler, each with the arguments it received (\<open>handler.apply(this, args)\<close>; an
  undefined \<open>args\<close> applies no arguments, an undefined handler throws a TypeError inside
  the \<open>try\<close>).
\<close>

definition listen :: "parse_result option \<Rightarrow> promise \<times> jsval list list" where
  "listen result =
     (case result of
        None \<Rightarrow> (Resolved JUndefined, [])
      | Some r \<Rightarrow>
          if result_args r = None \<and> \<not> truthy (result_name r) then (Resolved JUndefined, [])
          else
            (case result_handler r of
               None \<Rightarrow>
                 (Rejected (enrich (result_args r) (result_name r)
                    (JObj (type_error ''Cannot read property apply of undefined''))), [])
             | Some handler \<Rightarrow>
                 (let actual = (case result_args r of None \<Rightarrow> [] | Some xs \<Rightarrow> xs) in
                  case handler actual of
                    Inr v \<Rightarrow> (Resolved JUndefined, [actual])
                  | Inl err \<Rightarrow>
                      (Rejected (enrich (result_args r) (result_name r) err), [actual]))))"

text \<open>
  The options handed to the parser by \<open>hela(options)\<close>:
  \<open>Object.assign({}, defaultOptions, options, { lazy: true })\<close> with
  \<open>defaultOptions = { stdio: 'inherit', env: proc.env }\<close>; \<open>proc_env\<close> is \<open>proc.env\<close>.
\<close>

definition defaultOptions :: "jsval \<Rightarrow> obj" where
  "defaultOptions proc_env = [''stdio'' \<mapsto> JStr ''inherit'', ''env'' \<mapsto> proc_env]"

definition assign_source :: "obj option \<Rightarrow> obj" where
  "assign_source options = (case options of None \<Rightarrow> Map.empty | Some m \<Rightarrow> m)"

definition hela_opts :: "jsval \<Rightarrow> obj option \<Rightarrow> obj" where
  "hela_opts proc_env options =
     object_assign (object_assign (defaultOptions proc_env) (assign_source options))
       [''lazy'' \<mapsto> JBool True]"

text \<open>\<open>hela(options).listen()\<close> with the parser \<open>parse\<close> and the process arguments \<open>argv\<close>.\<close>

definition hela_listen ::
  "(jsval list \<Rightarrow> obj \<Rightarrow> parse_result option) \<Rightarrow> jsval \<Rightarrow> jsval list \<Rightarrow> obj option
     \<Rightarrow> promise \<times> jsval list list" where
  "hela_listen parse proc_env argv options = listen (parse argv (hela_opts proc_env options))"

section \<open>Running commands\<close>

text \<open>
  \<open>[].concat(cmds).filter(Boolean)\<close>: an array argument is spread (one level), anything
  else becomes the single element; then the falsy entries are dropped.
\<close>

fun concat_value :: "jsval \<Rightarrow> jsval list" where
  "concat_value (JArr xs) = xs"
| "concat_value v = [v]"

definition normalize_commands :: "jsval \<Rightarrow> jsval list" where
  "normalize_commands cmds = filter truthy (concat_value cmds)"

text \<open>
  \<open>execa.command(cmd, opts)\<close> is the process runner, a dependency: \<open>run cmd opts\<close> is how
  the process started for \<open>cmd\<close> with \<open>opts\<close> ends, \<open>Inl\<close> the error it rejects with and
  \<open>Inr\<close> its result. A call spawns the process at once and returns the promise of its end.
\<close>

type_synonym process_runner = "jsval \<Rightarrow> obj \<Rightarrow> jsval + jsval"

record spawned =
  spawn_cmd :: jsval
  spawn_opts :: obj
  spawn_outcome :: "jsval + jsval"

definition execa_command :: "process_runner \<Rightarrow> jsval \<Rightarrow> obj \<Rightarrow> spawned" where
  "execa_command run cmd opts = \<lparr> spawn_cmd = cmd, spawn_opts = opts, spawn_outcome = run cmd opts \<rparr>"

text \<open>
  What can be observed of a batch: the process for the command at an index of the
  filtered list starts, with the command and the options handed to the runner, and it
  ends. The trace of a batch runs up to the moment its promise settles.
\<close>

datatype event = Started nat jsval obj | Finished nat

subsection \<open>hela-core: exec and shell\<close>

text \<open>
  \<open>for (const cmd of commands) { await execa.command(cmd, opts); }\<close>: the first rejection
  leaves the loop and rejects the promise of \<open>exec\<close>; after the last command the
  function returns nothing, so the promise resolves with undefined.
\<close>

fun exec_loop :: "process_runner \<Rightarrow> obj \<Rightarrow> nat \<Rightarrow> jsval list \<Rightarrow> promise \<times> event list" where
  "exec_loop run opts i [] = (Resolved JUndefined, [])"
| "exec_loop run opts i (cmd # rest) =
     (let p = execa_command run cmd opts in
      case spawn_outcome p of
        Inl e \<Rightarrow> (Rejected e, [Started i (spawn_cmd p) (spawn_opts p), Finished i])
      | Inr v \<Rightarrow>
          apsnd (\<lambda>es. Started i (spawn_cmd p) (spawn_opts p) # Finished i # es)
            (exec_loop run opts (Suc i) rest))"

definition exec_hela ::
  "jsval \<Rightarrow> process_runner \<Rightarrow> jsval \<Rightarrow> obj option \<Rightarrow> promise \<times> event list" where
  "exec_hela proc_env run cmds options =
     (let commands = normalize_commands cmds;
          opts = object_assign (defaultOptions proc_env) (assign_source options)
      in exec_loop run opts 0 commands)"

definition shell_hela ::
  "jsval \<Rightarrow> process_runner \<Rightarrow> jsval \<Rightarrow> obj option \<Rightarrow> promise \<times> event list" where
  "shell_hela proc_env run cmds options =
     exec_hela proc_env run cmds
       (Some (object_assign (assign_source options) [''shell'' \<mapsto> JBool True]))"

subsection \<open>The concurrency-limiting mapper\<close>

text \<open>
  Modelled from the spec: \<open>pMap(items, mapper, { concurrency })\<close> of the dependency
  p-map, which is not in the sources. Sections 4.1 and 6 of the specification describe
  it: a pool of in-flight tasks of at most the limit; as each finishes, the next pending
  item is pulled from the front of the list; the results keep the order of the input
  whatever the order of completion; the first failure to surface rejects the whole, and
  nothing is started after it. Section 3 has the limit a positive number or unbounded;
  any other value is refused before anything starts.

  Which of the in-flight tasks finishes next is not up to the mapper: the schedule
  \<open>sched\<close> decides it, one number per completion, read modulo the number of tasks in
  flight. Every order of completion is the run of some schedule.
\<close>

datatype limit = Unbounded | AtMost nat

fun to_limit :: "jsval \<Rightarrow> limit option" where
  "to_limit JInfinity = Some Unbounded"
| "to_limit (JNum n) = (if 1 \<le> n then Some (AtMost (nat n)) else None)"
| "to_limit v = None"

fun has_room :: "limit \<Rightarrow> nat \<Rightarrow> bool" where
  "has_room Unbounded n = True"
| "has_room (AtMost m) n = (n < m)"

definition pick :: "nat list \<Rightarrow> nat \<Rightarrow> nat" where
  "pick sched n = (case sched of [] \<Rightarrow> 0 | s # _ \<Rightarrow> s mod n)"

definition remove_nth :: "nat \<Rightarrow> 'a list \<Rightarrow> 'a list" where
  "remove_nth j xs = take j xs @ drop (Suc j) xs"

text \<open>
  The state of the pool: \<open>k\<close> items have been pulled from \<open>xs\<close>, \<open>inflight\<close> holds the
  started and unfinished tasks with their indices, \<open>ret\<close> the results stored so far.
  A task is started whenever there is an item left and room in the pool; otherwise one
  of the tasks in flight finishes.
\<close>

function pMap_loop ::
  "(jsval \<Rightarrow> spawned) \<Rightarrow> limit \<Rightarrow> jsval list \<Rightarrow> nat list \<Rightarrow> nat \<Rightarrow> (nat \<times> spawned) list
     \<Rightarrow> jsval list \<Rightarrow> promise \<times> event list" where
  "pMap_loop mapper lim xs sched k inflight ret =
     (if k < length xs \<and> has_room lim (length inflight) then
        (let p = mapper (xs ! k) in
         apsnd ((#) (Started k (spawn_cmd p) (spawn_opts p)))
           (pMap_loop mapper lim xs sched (Suc k) (inflight @ [(k, p)]) ret))
      else if inflight = [] then
        (if k < length xs then Pending else Resolved (JArr ret), [])
      else
        (let j = pick sched (length inflight);
             i = fst (inflight ! j);
             p = snd (inflight ! j)
         in case spawn_outcome p of
              Inl e \<Rightarrow> (Rejected e, [Finished i])
            | Inr v \<Rightarrow>
                apsnd ((#) (Finished i))
                  (pMap_loop mapper lim xs (tl sched) k (remove_nth j inflight) (ret[i := v]))))"
  by pat_completeness auto
termination
proof (relation "measure (\<lambda>(mapper, lim, xs, sched, k, inflight, ret).
                  2 * (length xs - k) + length inflight)", goal_cases)
  case 1
  show ?case by simp
next
  case (2 mapper lim xs sched k inflight ret x)
  then show ?case by auto
next
  case (3 mapper lim xs sched k inflight ret j i p v)
  then have "j < length inflight"
    by (simp add: pick_def split: list.splits)
  then show ?case
    by (simp add: remove_nth_def)
qed

declare pMap_loop.simps [simp del]

definition pMap ::
  "jsval list \<Rightarrow> (jsval \<Rightarrow> spawned) \<Rightarrow> jsval \<Rightarrow> nat list \<Rightarrow> promise \<times> event list" where
  "pMap items mapper concurrency sched =
     (case to_limit concurrency of
        None \<Rightarrow> (Rejected (JObj (type_error ''Expected concurrency to be a number from 1 and up'')), [])
      | Some lim \<Rightarrow>
          pMap_loop mapper lim items sched 0 [] (replicate (length items) JUndefined))"

subsection \<open>@tunnckocore/execa: exec and shell\<close>

text \<open>
  \<open>const { concurrency = Infinity, ...opts } = Object.assign({ preferLocal: true }, options)\<close>:
  the default applies when the key is missing or undefined, and \<open>opts\<close> is the merged
  object without the key.
\<close>

definition merged_options :: "obj option \<Rightarrow> obj" where
  "merged_options options = object_assign [''preferLocal'' \<mapsto> JBool True] (assign_source options)"

definition concurrency_of :: "obj \<Rightarrow> jsval" where
  "concurrency_of merged =
     (case merged ''concurrency'' of
        None \<Rightarrow> JInfinity
      | Some v \<Rightarrow> if v = JUndefined then JInfinity else v)"

definition rest_options :: "obj \<Rightarrow> obj" where
  "rest_options merged = merged(''concurrency'' := None)"

definition exec_execa ::
  "process_runner \<Rightarrow> nat list \<Rightarrow> jsval \<Rightarrow> obj option \<Rightarrow> promise \<times> event list" where
  "exec_execa run sched cmds options =
     (let commands = normalize_commands cmds;
          concurrency = concurrency_of (merged_options options);
          opts = rest_options (merged_options options)
      in pMap commands (\<lambda>cmd. execa_command run cmd opts) concurrency sched)"

definition shell_execa ::
  "process_runner \<Rightarrow> nat list \<Rightarrow> jsval \<Rightarrow> obj option \<Rightarrow> promise \<times> event list" where
  "shell_execa run sched cmds options =
     exec_execa run sched cmds
       (Some (object_assign (assign_source options) [''shell'' \<mapsto> JBool True]))"

section \<open>Notions used to state the properties\<close>

text \<open>
  The handler wrapping as the specification words it (section 4.3): the user function is
  invoked with the synthesized fallback argument object merged with the argument object
  the parser produced, the last of the arguments; the parser's fields win. This
  definition follows the specification, not the source, and is only compared with
  \<open>wrapped_handler\<close>.
\<close>

fun merge_fallback :: "obj \<Rightarrow> jsval \<Rightarrow> jsval" where
  "merge_fallback fallback (JObj parsed) = JObj (object_assign fallback parsed)"
| "merge_fallback fallback v = JObj fallback"

definition merged_handler_spec :: "task \<Rightarrow> string \<times> user_fn \<Rightarrow> jsval list \<Rightarrow> jsval + jsval" where
  "merged_handler_spec taskObj h args =
     (case h of (name, fn) \<Rightarrow>
        (if args = [] then fn [JObj (fakeArgv taskObj name)]
         else fn (butlast args @ [merge_fallback (fakeArgv taskObj name) (last args)])))"

text \<open>
  A serial run of the commands \<open>cs\<close>, numbered from \<open>i\<close>, all with the options \<open>opts\<close>:
  each command starts when the one before it has ended, in the order of the list.
\<close>

fun serial_trace :: "obj \<Rightarrow> nat \<Rightarrow> jsval list \<Rightarrow> event list" where
  "serial_trace opts i [] = []"
| "serial_trace opts i (cmd # rest) = Started i cmd opts # Finished i # serial_trace opts (Suc i) rest"

text \<open>The commands of a list up to and including the first one that fails.\<close>

fun until_failure :: "process_runner \<Rightarrow> obj \<Rightarrow> jsval list \<Rightarrow> jsval list" where
  "until_failure run opts [] = []"
| "until_failure run opts (cmd # rest) =
     (case run cmd opts of Inl e \<Rightarrow> [cmd] | Inr v \<Rightarrow> cmd # until_failure run opts rest)"

fun is_finished :: "event \<Rightarrow> bool" where
  "is_finished (Finished i) = True"
| "is_finished (Started i cmd opts) = False"

text \<open>The options of the events that start a process.\<close>

fun started_opts :: "event list \<Rightarrow> obj list" where
  "started_opts [] = []"
| "started_opts (Started i cmd opts # es) = opts # started_opts es"
| "started_opts (Finished i # es) = started_opts es"

text \<open>
  A \<open>concurrency\<close> option the mapper accepts: absent or undefined, \<open>Infinity\<close>, or a
  number from 1 up (section 3 of the specification).
\<close>

definition valid_concurrency :: "obj option \<Rightarrow> bool" where
  "valid_concurrency options = (to_limit (concurrency_of (merged_options options)) \<noteq> None)"

text \<open>
  The options each variant of \<open>exec\<close> hands to the runner: hela-core merges the caller's
  options over its \<open>defaultOptions\<close>; @tunnckocore/execa merges them over
  \<open>{ preferLocal: true }\<close> and takes \<open>concurrency\<close> out.
\<close>

definition options_hela :: "jsval \<Rightarrow> obj option \<Rightarrow> obj" where
  "options_hela proc_env options = object_assign (defaultOptions proc_env) (assign_source options)"

definition options_execa :: "obj option \<Rightarrow> obj" where
  "options_execa options = rest_options (merged_options options)"

text \<open>\<open>Object.assign({}, options, { shell: true })\<close>, the options \<open>shell\<close> passes on.\<close>

definition with_shell :: "obj option \<Rightarrow> obj" where
  "with_shell options = (assign_source options)(''shell'' \<mapsto> JBool True)"

section \<open>Properties of createBuildConfig\<close>

lemma read_property_defined:
  "v \<noteq> JUndefined \<Longrightarrow> v \<noteq> JNull \<Longrightarrow> \<exists>x. read_property v k = Inr x"
  by (cases v) simp_all

text \<open>
  C9, as stated, fails: an options record whose \<open>env\<close> is null, or undefined, replaces
  the default env, and reading \<open>opts.env.NODE_ENV\<close> throws a TypeError; no
  configuration record is returned.
\<close>

theorem createBuildConfig_throws_without_env:
  "createBuildConfig Map.empty \<lparr> mono = JBool True, env = Some JNull, cwd = JStr ''/repo'' \<rparr>
     = Inl (type_error ''Cannot read property of null'')
   \<and> createBuildConfig Map.empty \<lparr> mono = JBool True, env = Some JUndefined, cwd = JStr ''/repo'' \<rparr>
     = Inl (type_error ''Cannot read property of undefined'')"
  by (simp add: createBuildConfig_def effective_env_def)

text \<open>
  C9, amended. For every options record whose \<open>env\<close>, when the key is present, is neither
  undefined nor null, \<open>createBuildConfig\<close> returns a configuration record: its test glob
  is \<open><rootDir>/packages/*/src/**/*\<close> when \<open>options.mono\<close> is truthy and
  \<open><rootDir>/src/**/*\<close> otherwise; its display name is \<open>build:esm\<close> and its output
  directory \<open>dist/build/module\<close> when the effective \<open>env.NODE_ENV\<close> is \<open>'module'\<close>, and
  \<open>build:cjs\<close> with \<open>dist/build/main\<close> otherwise; the effective env is the value of the
  options' \<open>env\<close> key, and \<open>{ NODE_ENV: 'main' }\<close> when the key is absent; and its root
  directory is \<open>options.cwd\<close>.
\<close>

theorem createBuildConfig_fields:
  assumes "env options \<noteq> Some JUndefined" and "env options \<noteq> Some JNull"
  shows "\<exists>config node_env.
           createBuildConfig babelConfig options = Inr config
         \<and> read_property (effective_env options) ''NODE_ENV'' = Inr node_env
         \<and> testMatch config =
              [if truthy (mono options) then ''<rootDir>/packages/*/src/**/*''
               else ''<rootDir>/src/**/*'']
         \<and> displayName config = (if node_env = JStr ''module'' then ''build:esm'' else ''build:cjs'')
         \<and> outDir (haste config) =
              (if node_env = JStr ''module'' then ''dist/build/module'' else ''dist/build/main'')
         \<and> (env options = None \<longrightarrow>
               effective_env options = JObj [''NODE_ENV'' \<mapsto> JStr ''main''] \<and> node_env = JStr ''main'')
         \<and> (\<forall>v. env options = Some v \<longrightarrow> effective_env options = v)
         \<and> rootDir config = cwd options"
proof -
  have "effective_env options \<noteq> JUndefined" and "effective_env options \<noteq> JNull"
    using assms by (auto simp: effective_env_def split: option.splits)
  then obtain node_env where n: "read_property (effective_env options) ''NODE_ENV'' = Inr node_env"
    using read_property_defined by blast
  have d: "env options = None \<longrightarrow>
             effective_env options = JObj [''NODE_ENV'' \<mapsto> JStr ''main''] \<and> node_env = JStr ''main''"
    using n by (auto simp: effective_env_def default_env_def get_prop_def)
  have e: "\<forall>v. env options = Some v \<longrightarrow> effective_env options = v"
    by (simp add: effective_env_def)
  show ?thesis
    using n d e by (simp add: createBuildConfig_def Let_def)
qed

theorem createBuildConfig_fields_witness:
  "(\<exists>config.
      createBuildConfig Map.empty
        \<lparr> mono = JBool True, env = Some (JObj [''NODE_ENV'' \<mapsto> JStr ''module'']), cwd = JStr ''/repo'' \<rparr>
        = Inr config
    \<and> testMatch config = [''<rootDir>/packages/*/src/**/*'']
    \<and> displayName config = ''build:esm''
    \<and> outDir (haste config) = ''dist/build/module''
    \<and> rootDir config = JStr ''/repo'')
   \<and> (\<exists>config.
      createBuildConfig Map.empty \<lparr> mono = JUndefined, env = None, cwd = JStr ''/repo'' \<rparr> = Inr config
    \<and> testMatch config = [''<rootDir>/src/**/*'']
    \<and> displayName config = ''build:cjs''
    \<and> outDir (haste config) = ''dist/build/main''
    \<and> rootDir config = JStr ''/repo'')"
proof
  let ?o = "\<lparr> mono = JBool True, env = Some (JObj [''NODE_ENV'' \<mapsto> JStr ''module'']),
              cwd = JStr ''/repo'' \<rparr>"
  have "env ?o \<noteq> Some JUndefined" and "env ?o \<noteq> Some JNull"
    by simp_all
  from createBuildConfig_fields[OF this, of Map.empty]
  show "\<exists>config. createBuildConfig Map.empty ?o = Inr config
    \<and> testMatch config = [''<rootDir>/packages/*/src/**/*'']
    \<and> displayName config = ''build:esm''
    \<and> outDir (haste config) = ''dist/build/module''
    \<and> rootDir config = JStr ''/repo''"
    by (auto simp: effective_env_def get_prop_def)
next
  let ?o = "\<lparr> mono = JUndefined, env = None, cwd = JStr ''/repo'' \<rparr>"
  have "env ?o \<noteq> Some JUndefined" and "env ?o \<noteq> Some JNull"
    by simp_all
  from createBuildConfig_fields[OF this, of Map.empty]
  show "\<exists>config. createBuildConfig Map.empty ?o = Inr config
    \<and> testMatch config = [''<rootDir>/src/**/*'']
    \<and> displayName config = ''build:cjs''
    \<and> outDir (haste config) = ''dist/build/main''
    \<and> rootDir config = JStr ''/repo''"
    by auto
qed

section \<open>Properties of the task runner\<close>




text \<open>
  C6, as stated, fails: not every thrown value can be extended. When the handler throws
  null (or rejects with no reason, undefined), or a frozen error object, the
  \<open>Object.assign\<close> of the \<open>catch\<close> block itself throws, and \<open>listen()\<close> rejects with that
  TypeError, which carries no \<open>commandName\<close>; when it throws a primitive, the fields go
  to a new wrapper object and that is raised, not the value thrown.
\<close>

theorem listen_cannot_enrich_every_error:
  "hela_listen (\<lambda>argv opts. Some \<lparr> result_args = Some [JObj [''_'' \<mapsto> JArr []]],
                                   result_name = JStr ''build'',
                                   result_handler = Some (\<lambda>args. Inl JNull) \<rparr>)
     (JObj Map.empty) [JStr ''node'', JStr ''hela'', JStr ''build''] None
   = (Rejected (JObj (type_error ''Cannot convert undefined or null to object'')),
      [[JObj [''_'' \<mapsto> JArr []]]])
   \<and> type_error ''Cannot convert undefined or null to object'' ''commandName'' = None
   \<and> hela_listen (\<lambda>argv opts. Some \<lparr> result_args = Some [JObj [''_'' \<mapsto> JArr []]],
                                   result_name = JStr ''build'',
                                   result_handler =
                                     Some (\<lambda>args. Inl (JFrozen [''message'' \<mapsto> JStr ''boom''])) \<rparr>)
     (JObj Map.empty) [JStr ''node'', JStr ''hela'', JStr ''build''] None
   = (Rejected (JObj (type_error ''Cannot add property, object is not extensible'')),
      [[JObj [''_'' \<mapsto> JArr []]]])
   \<and> hela_listen (\<lambda>argv opts. Some \<lparr> result_args = Some [JObj [''_'' \<mapsto> JArr []]],
                                   result_name = JStr ''build'',
                                   result_handler = Some (\<lambda>args. Inl (JStr ''boom'')) \<rparr>)
     (JObj Map.empty) [JStr ''node'', JStr ''hela'', JStr ''build''] None
   = (Rejected (JBoxed (JStr ''boom'')
                  [''commandArgv'' \<mapsto> JObj [''_'' \<mapsto> JArr []],
                   ''commandArgs'' \<mapsto> JArr [],
                   ''commandName'' \<mapsto> JStr ''build'']),
      [[JObj [''_'' \<mapsto> JArr []]]])"
  by (simp add: hela_listen_def listen_def enrich_def object_assign_def type_error_def)

text \<open>
  C6, amended. When the handler of the dispatched task throws or rejects with an
  object that can be extended (as an \<open>Error\<close> is unless it was frozen), \<open>listen()\<close>
  catches it, attaches \<open>commandArgv\<close> (the raw argument object, the last of the parsed
  arguments), \<open>commandArgs\<close> (the positional arguments before it) and \<open>commandName\<close> (the
  resolved task name) to it and re-raises it: the promise of \<open>listen()\<close> rejects with
  the error so extended. The handler was called once, with the parsed arguments.
\<close>

theorem listen_enriches_error:
  assumes "parse argv (hela_opts proc_env options) = Some r"
    and "result_args r = Some (positional @ [raw])"
    and "result_handler r = Some handler"
    and "handler (positional @ [raw]) = Inl (JObj err)"
  shows "hela_listen parse proc_env argv options =
           (Rejected (JObj (err(''commandArgv'' \<mapsto> raw,
                                ''commandArgs'' \<mapsto> JArr positional,
                                ''commandName'' \<mapsto> result_name r))),
            [positional @ [raw]])"
  using assms by (simp add: hela_listen_def listen_def enrich_def object_assign_def)

theorem listen_enriches_error_witness:
  "hela_listen (\<lambda>argv opts. Some \<lparr> result_args = Some ([JStr ''src''] @ [JObj [''_'' \<mapsto> JArr []]]),
                                   result_name = JStr ''build'',
                                   result_handler = Some (\<lambda>args. Inl (JObj [''message'' \<mapsto> JStr ''boom''])) \<rparr>)
     JNull [JStr ''node'', JStr ''hela'', JStr ''build'', JStr ''src''] None =
   (Rejected (JObj [''message'' \<mapsto> JStr ''boom'',
                    ''commandArgv'' \<mapsto> JObj [''_'' \<mapsto> JArr []],
                    ''commandArgs'' \<mapsto> JArr [JStr ''src''],
                    ''commandName'' \<mapsto> JStr ''build'']),
    [[JStr ''src''] @ [JObj [''_'' \<mapsto> JArr []]]])"
  using listen_enriches_error
    [of "\<lambda>argv opts. Some \<lparr> result_args = Some ([JStr ''src''] @ [JObj [''_'' \<mapsto> JArr []]]),
                              result_name = JStr ''build'',
                              result_handler = Some (\<lambda>args. Inl (JObj [''message'' \<mapsto> JStr ''boom''])) \<rparr>"
        "[JStr ''node'', JStr ''hela'', JStr ''build'', JStr ''src'']" JNull None
        "\<lparr> result_args = Some ([JStr ''src''] @ [JObj [''_'' \<mapsto> JArr []]]),
           result_name = JStr ''build'',
           result_handler = Some (\<lambda>args. Inl (JObj [''message'' \<mapsto> JStr ''boom''])) \<rparr>"
        "[JStr ''src'']" "JObj [''_'' \<mapsto> JArr []]"
        "\<lambda>args. Inl (JObj [''message'' \<mapsto> JStr ''boom''])" "[''message'' \<mapsto> JStr ''boom'']"]
  by simp

text \<open>
  C8, as stated, fails: the wrapped handler does not merge the fallback object with what
  the parser produced. Here the user function returns the arguments it receives; called
  by the wrapper with the parser's object \<open>{ _: [] }\<close> it receives that object untouched
  (its \<open>cwd\<close> is undefined although the task has a default for it) and the fallback as
  a second, separate argument.
\<close>

theorem wrapped_handler_not_merged:
  "wrapped_handler
     \<lparr> task_options = [], task_default = [''cwd'' \<mapsto> JStr ''/w''], task_handler = None \<rparr>
     (''build'', \<lambda>args. Inr (JArr args)) [JObj [''_'' \<mapsto> JArr []]]
   = Inr (JArr [JObj [''_'' \<mapsto> JArr []],
                JObj [''cwd'' \<mapsto> JStr ''/w'', ''_'' \<mapsto> JArr [JStr ''build'']]])
   \<and> wrapped_handler
     \<lparr> task_options = [], task_default = [''cwd'' \<mapsto> JStr ''/w''], task_handler = None \<rparr>
     (''build'', \<lambda>args. Inr (JArr args)) [JObj [''_'' \<mapsto> JArr []]]
   \<noteq> merged_handler_spec
     \<lparr> task_options = [], task_default = [''cwd'' \<mapsto> JStr ''/w''], task_handler = None \<rparr>
     (''build'', \<lambda>args. Inr (JArr args)) [JObj [''_'' \<mapsto> JArr []]]"
  by (simp add: wrapped_handler_def merged_handler_spec_def fakeArgv_def object_assign_def)

text \<open>
  C8, amended. When a handler function is attached with \<open>action()\<close> to a task of the
  table, \<open>action\<close> succeeds and returns the wrapper; the task's handler is the wrapper;
  the row \<open>--cwd\<close> with the current working directory as default is the last option
  registered on the task Sade is defining (the task itself when it has a name, Sade's
  table of global options for the implicit default task), and the default is stored
  under \<open>cwd\<close>; and on every invocation the wrapper calls the user function with the
  arguments it was given followed by one more argument, the fallback object: the
  task's default values with \<open>_\<close> set to the list holding just the task name.
\<close>

theorem action_registers_cwd_and_wraps:
  assumes "tree p (action_name p) = Some taskObj"
    and "curr p = [] \<longrightarrow> tree p ''__all__'' \<noteq> None"
  shows "\<exists>p' t' target.
           action proc_cwd (Some fn) p = Inr (p', (action_name p, fn))
         \<and> tree p' (action_name p) = Some t'
         \<and> task_handler t' = Some (action_name p, fn)
         \<and> tree p' (option_target p) = Some target
         \<and> (curr p \<noteq> [] \<longrightarrow> target = t')
         \<and> last (task_options target) =
               [JStr ''--cwd'', JStr ''Current working directory'', JStr proc_cwd]
         \<and> task_default target ''cwd'' = Some (JStr proc_cwd)
         \<and> (\<forall>args. wrapped_handler t' (action_name p, fn) args =
                      fn (args @ [JObj ((task_default t')(''_'' \<mapsto> JArr [JStr (action_name p)]))]))"
proof (cases "curr p = []")
  case True
  with assms obtain allObj where "tree p ''__all__'' = Some allObj"
    by auto
  with assms(1) True show ?thesis
    by (simp add: action_def action_name_def option_target_def option_sade_def Let_def
        wrapped_handler_def fakeArgv_def object_assign_def)
next
  case False
  with assms(1) show ?thesis
    by (simp add: action_def action_name_def option_target_def option_sade_def Let_def
        wrapped_handler_def fakeArgv_def object_assign_def)
qed

theorem action_registers_cwd_and_wraps_witness:
  "\<exists>p' t' target.
     action ''/w'' (Some (\<lambda>args. Inr (JArr args)))
       \<lparr> curr = ''build'',
          tree = [''build'' \<mapsto> \<lparr> task_options = [], task_default = Map.empty, task_handler = None \<rparr>],
          commands = [] \<rparr>
       = Inr (p', (''build'', \<lambda>args. Inr (JArr args)))
     \<and> tree p' ''build'' = Some t'
     \<and> task_handler t' = Some (''build'', \<lambda>args. Inr (JArr args))
     \<and> tree p' ''build'' = Some target
     \<and> target = t'
     \<and> last (task_options target) =
          [JStr ''--cwd'', JStr ''Current working directory'', JStr ''/w'']
     \<and> task_default target ''cwd'' = Some (JStr ''/w'')
     \<and> (\<forall>args. wrapped_handler t' (''build'', \<lambda>args. Inr (JArr args)) args =
            Inr (JArr (args @ [JObj ((task_default t')(''_'' \<mapsto> JArr [JStr ''build'']))])))"
  using action_registers_cwd_and_wraps
    [of "\<lparr> curr = ''build'',
            tree = [''build'' \<mapsto> \<lparr> task_options = [], task_default = Map.empty, task_handler = None \<rparr>],
            commands = [] \<rparr>"
        "\<lparr> task_options = [], task_default = Map.empty, task_handler = None \<rparr>"
        "''/w''" "\<lambda>args. Inr (JArr args)"]
  by (simp add: action_name_def option_target_def)

section \<open>The loops of exec\<close>

lemma exec_loop_trace:
  "snd (exec_loop run opts i cs) = serial_trace opts i (until_failure run opts cs)"
  by (induction cs arbitrary: i) (auto simp: execa_command_def Let_def split: sum.splits)


lemma until_failure_all_succeed:
  "\<forall>c\<in>set cs. \<exists>v. run c opts = Inr v \<Longrightarrow> until_failure run opts cs = cs"
  by (induction cs) (auto split: sum.splits)

lemma exec_loop_first_failure:
  "\<forall>c\<in>set pre. \<exists>v. run c opts = Inr v \<Longrightarrow> run cmd opts = Inl e \<Longrightarrow>
   fst (exec_loop run opts i (pre @ cmd # rest)) = Rejected e"
  by (induction pre arbitrary: i) (auto simp: execa_command_def Let_def split: sum.splits)

lemma remove_nth_set: "j < length xs \<Longrightarrow> set xs = insert (xs ! j) (set (remove_nth j xs))"
  unfolding remove_nth_def
  by (metis Cons_nth_drop_Suc append_take_drop_id list.simps(15) set_append Un_insert_right)

lemma pick_less: "0 < n \<Longrightarrow> pick sched n < n"
  by (simp add: pick_def split: list.splits)

lemma started_events:
  "ev \<in> set (snd (pMap_loop mapper lim xs sched k inflight ret)) \<Longrightarrow> ev = Started i c opts \<Longrightarrow>
     opts = spawn_opts (mapper (xs ! i)) \<and> c = spawn_cmd (mapper (xs ! i)) \<and> k \<le> i \<and> i < length xs"
proof (induction mapper lim xs sched k inflight ret rule: pMap_loop.induct)
  case (1 mapper lim xs sched k inflight ret)
  show ?case
  proof (cases "k < length xs \<and> has_room lim (length inflight)")
    case True
    then show ?thesis
      using "1.prems" "1.IH"(1)[OF True refl]
      by (subst (asm) pMap_loop.simps) (auto simp: Let_def)
  next
    case False
    show ?thesis
    proof (cases "inflight = []")
      case True
      with False "1.prems" show ?thesis
        by (subst (asm) pMap_loop.simps) (auto simp: Let_def)
    next
      case ne: False
      show ?thesis
        using False ne "1.prems" "1.IH"(2)[OF False ne refl refl refl]
        by (subst (asm) pMap_loop.simps) (auto simp: Let_def split: sum.splits)
    qed
  qed
qed


lemma pMap_loop_start:
  assumes "k < length xs" and "has_room lim (length inflight)"
  shows "pMap_loop mapper lim xs sched k inflight ret =
           apsnd ((#) (Started k (spawn_cmd (mapper (xs ! k))) (spawn_opts (mapper (xs ! k)))))
             (pMap_loop mapper lim xs sched (Suc k) (inflight @ [(k, mapper (xs ! k))]) ret)"
  by (subst pMap_loop.simps) (simp add: assms Let_def)

lemma pMap_loop_done:
  assumes "\<not> (k < length xs \<and> has_room lim (length inflight))" and "inflight = []"
  shows "pMap_loop mapper lim xs sched k inflight ret =
           (if k < length xs then Pending else Resolved (JArr ret), [])"
  using assms by (subst pMap_loop.simps) auto

lemma pMap_loop_finish:
  assumes "\<not> (k < length xs \<and> has_room lim (length inflight))" and "inflight \<noteq> []"
  shows "pMap_loop mapper lim xs sched k inflight ret =
           (case spawn_outcome (snd (inflight ! pick sched (length inflight))) of
              Inl e \<Rightarrow> (Rejected e, [Finished (fst (inflight ! pick sched (length inflight)))])
            | Inr v \<Rightarrow>
                apsnd ((#) (Finished (fst (inflight ! pick sched (length inflight)))))
                  (pMap_loop mapper lim xs (tl sched) k
                     (remove_nth (pick sched (length inflight)) inflight)
                     (ret[fst (inflight ! pick sched (length inflight)) := v])))"
  by (subst pMap_loop.simps) (simp only: assms if_False Let_def)



lemma pMap_loop_rejects:
  "lim \<noteq> AtMost 0 \<Longrightarrow> k \<le> length xs \<Longrightarrow>
   \<forall>q\<in>set inflight. fst q < length xs \<and> snd q = mapper (xs ! fst q) \<Longrightarrow>
   \<exists>f<length xs. (\<exists>e. spawn_outcome (mapper (xs ! f)) = Inl e) \<and> (k \<le> f \<or> f \<in> fst ` set inflight) \<Longrightarrow>
   \<exists>x e. x \<in> set xs \<and> spawn_outcome (mapper x) = Inl e
        \<and> fst (pMap_loop mapper lim xs sched k inflight ret) = Rejected e"
proof (induction mapper lim xs sched k inflight ret rule: pMap_loop.induct)
  case (1 mapper lim xs sched k inflight ret)
  note lim = "1.prems"(1) and kl = "1.prems"(2) and inv = "1.prems"(3)
  from "1.prems"(4) obtain f e where f: "f < length xs" "spawn_outcome (mapper (xs ! f)) = Inl e"
    "k \<le> f \<or> f \<in> fst ` set inflight"
    by blast
  show ?case
  proof (cases "k < length xs \<and> has_room lim (length inflight)")
    case True
    have "\<exists>x e. x \<in> set xs \<and> spawn_outcome (mapper x) = Inl e
            \<and> fst (pMap_loop mapper lim xs sched (Suc k) (inflight @ [(k, mapper (xs ! k))]) ret)
                = Rejected e"
    proof (rule "1.IH"(1)[OF True refl lim])
      show "Suc k \<le> length xs" using True by simp
      show "\<forall>q\<in>set (inflight @ [(k, mapper (xs ! k))]).
              fst q < length xs \<and> snd q = mapper (xs ! fst q)"
        using inv True by auto
      show "\<exists>f<length xs. (\<exists>e. spawn_outcome (mapper (xs ! f)) = Inl e)
              \<and> (Suc k \<le> f \<or> f \<in> fst ` set (inflight @ [(k, mapper (xs ! k))]))"
        using f by (intro exI[of _ f]) (auto simp: le_Suc_eq)
    qed
    with True show ?thesis
      by (simp add: pMap_loop_start)
  next
    case False
    show ?thesis
    proof (cases "inflight = []")
      case True
      with f have "k < length xs" by auto
      moreover have "has_room lim 0" using lim by (cases lim) auto
      ultimately show ?thesis using False True by simp
    next
      case ne: False
      define j where "j = pick sched (length inflight)"
      define i where "i = fst (inflight ! j)"
      define p where "p = snd (inflight ! j)"
      have j: "j < length inflight" using ne by (simp add: j_def pick_less)
      then have mem: "inflight ! j \<in> set inflight" by simp
      with inv have il: "i < length xs" and pm: "p = mapper (xs ! i)"
        by (auto simp: i_def p_def)
      have sets: "set inflight = insert (inflight ! j) (set (remove_nth j inflight))"
        using j by (rule remove_nth_set)
      show ?thesis
      proof (cases "spawn_outcome p")
        case (Inl e')
        then have "fst (pMap_loop mapper lim xs sched k inflight ret) = Rejected e'"
          by (simp add: pMap_loop_finish[OF False ne] j_def[symmetric] p_def[symmetric])
        moreover have "xs ! i \<in> set xs" using il by simp
        ultimately show ?thesis using Inl pm by blast
      next
        case (Inr v)
        have "\<exists>x e. x \<in> set xs \<and> spawn_outcome (mapper x) = Inl e
                \<and> fst (pMap_loop mapper lim xs (tl sched) k (remove_nth j inflight) (ret[i := v]))
                    = Rejected e"
        proof (rule "1.IH"(2)[OF False ne j_def i_def p_def Inr lim kl])
          show "\<forall>q\<in>set (remove_nth j inflight). fst q < length xs \<and> snd q = mapper (xs ! fst q)"
            using inv sets by blast
          have "f \<noteq> i" using f(2) Inr pm by auto
          then have "f \<in> fst ` set inflight \<Longrightarrow> f \<in> fst ` set (remove_nth j inflight)"
            by (subst (asm) sets) (auto simp: i_def)
          with f show "\<exists>f<length xs. (\<exists>e. spawn_outcome (mapper (xs ! f)) = Inl e)
                  \<and> (k \<le> f \<or> f \<in> fst ` set (remove_nth j inflight))"
            by blast
        qed
        with Inr show ?thesis
          by (simp add: pMap_loop_finish[OF False ne] j_def[symmetric] i_def[symmetric] p_def[symmetric])
      qed
    qed
  qed
qed

lemma pMap_loop_drain:
  "length xs \<le> k \<Longrightarrow> ev \<in> set (snd (pMap_loop mapper lim xs sched k inflight ret)) \<Longrightarrow> is_finished ev"
proof (induction mapper lim xs sched k inflight ret rule: pMap_loop.induct)
  case (1 mapper lim xs sched k inflight ret)
  from "1.prems"(1) have False: "\<not> (k < length xs \<and> has_room lim (length inflight))"
    by simp
  show ?case
  proof (cases "inflight = []")
    case True
    with "1.prems" False show ?thesis
      by (simp add: pMap_loop_done)
  next
    case ne: False
    show ?thesis
      using "1.prems" "1.IH"(2)[OF False ne refl refl refl]
      by (auto simp: pMap_loop_finish[OF False ne] split: sum.splits)
  qed
qed

lemma pMap_loop_unbounded:
  "k \<le> length xs \<Longrightarrow>
   \<exists>rest. snd (pMap_loop mapper Unbounded xs sched k inflight ret) =
     map (\<lambda>i. Started i (spawn_cmd (mapper (xs ! i))) (spawn_opts (mapper (xs ! i)))) [k..<length xs] @ rest
     \<and> (\<forall>ev\<in>set rest. is_finished ev)"
proof (induction "length xs - k" arbitrary: k inflight)
  case 0
  then have "length xs \<le> k" by simp
  then have "\<forall>ev\<in>set (snd (pMap_loop mapper Unbounded xs sched k inflight ret)). is_finished ev"
    using pMap_loop_drain by blast
  with 0 show ?case by simp
next
  case (Suc n)
  then have lt: "k < length xs" by simp
  from Suc have "n = length xs - Suc k" by simp
  from Suc.hyps(1)[OF this, of "inflight @ [(k, mapper (xs ! k))]"] lt
  obtain rest where "snd (pMap_loop mapper Unbounded xs sched (Suc k) (inflight @ [(k, mapper (xs ! k))]) ret) =
     map (\<lambda>i. Started i (spawn_cmd (mapper (xs ! i))) (spawn_opts (mapper (xs ! i)))) [Suc k..<length xs] @ rest"
    "\<forall>ev\<in>set rest. is_finished ev"
    by auto
  with lt show ?case
    by (simp add: pMap_loop_start upt_conv_Cons)
qed

lemma execa_command_sel:
  "spawn_cmd (execa_command run cmd opts) = cmd"
  "spawn_opts (execa_command run cmd opts) = opts"
  "spawn_outcome (execa_command run cmd opts) = run cmd opts"
  by (simp_all add: execa_command_def)

lemma pick_one: "pick sched (Suc 0) = 0"
  by (simp add: pick_def split: list.splits)

lemma pMap_loop_serial:
  "k \<le> length xs \<Longrightarrow>
   snd (pMap_loop (\<lambda>cmd. execa_command run cmd opts) (AtMost (Suc 0)) xs sched k [] ret)
     = snd (exec_loop run opts k (drop k xs))
   \<and> (\<forall>e. fst (exec_loop run opts k (drop k xs)) = Rejected e \<longrightarrow>
        fst (pMap_loop (\<lambda>cmd. execa_command run cmd opts) (AtMost (Suc 0)) xs sched k [] ret) = Rejected e)"
proof (induction "length xs - k" arbitrary: k sched ret)
  case 0
  then show ?case by (simp add: pMap_loop_done)
next
  case (Suc n)
  let ?M = "\<lambda>cmd. execa_command run cmd opts"
  let ?p = "execa_command run (xs ! k) opts"
  from Suc have lt: "k < length xs" by simp
  from Suc have n: "n = length xs - Suc k" by simp
  have dr: "drop k xs = xs ! k # drop (Suc k) xs"
    using lt by (simp add: Cons_nth_drop_Suc)
  have no: "\<not> (Suc k < length xs \<and> has_room (AtMost (Suc 0)) (length [(k, ?p)]))"
    by simp
  have start: "pMap_loop ?M (AtMost (Suc 0)) xs sched k [] ret =
      apsnd ((#) (Started k (xs ! k) opts)) (pMap_loop ?M (AtMost (Suc 0)) xs sched (Suc k) [(k, ?p)] ret)"
    using lt by (simp add: pMap_loop_start execa_command_sel)
  have fin: "pMap_loop ?M (AtMost (Suc 0)) xs sched (Suc k) [(k, ?p)] ret =
      (case run (xs ! k) opts of
         Inl e \<Rightarrow> (Rejected e, [Finished k])
       | Inr v \<Rightarrow> apsnd ((#) (Finished k)) (pMap_loop ?M (AtMost (Suc 0)) xs (tl sched) (Suc k) [] (ret[k := v])))"
    by (subst pMap_loop_finish[OF no]) (simp_all add: pick_one execa_command_sel remove_nth_def cong: sum.case_cong)
  show ?case
  proof (cases "run (xs ! k) opts")
    case (Inl e)
    then show ?thesis
      by (simp add: start fin dr execa_command_sel)
  next
    case (Inr v)
    from Suc.hyps(1)[OF n, of "tl sched" "ret[k := v]"] lt Inr show ?thesis
      by (simp add: start fin dr execa_command_sel)
  qed
qed




section \<open>Properties of exec and shell\<close>





text \<open>The options of every process a batch starts are the ones \<open>exec\<close> computed.\<close>

lemma started_opts_mem:
  "opts \<in> set (started_opts es) \<Longrightarrow> \<exists>i cmd. Started i cmd opts \<in> set es"
  by (induction es rule: started_opts.induct) auto

lemma started_opts_exec_loop:
  "opts' \<in> set (started_opts (snd (exec_loop run opts i cs))) \<Longrightarrow> opts' = opts"
  by (induction cs arbitrary: i) (auto simp: execa_command_def Let_def split: sum.splits)

lemma started_opts_pMap:
  assumes "opts' \<in> set (started_opts (snd (pMap xs (\<lambda>cmd. execa_command run cmd opts) concurrency sched)))"
  shows "opts' = opts"
proof (cases "to_limit concurrency")
  case None
  with assms show ?thesis by (simp add: pMap_def)
next
  case (Some lim)
  with assms obtain i cmd where
    "Started i cmd opts' \<in> set (snd (pMap_loop (\<lambda>cmd. execa_command run cmd opts) lim xs sched 0 []
        (replicate (length xs) JUndefined)))"
    by (auto simp: pMap_def dest: started_opts_mem)
  from started_events[OF this refl] show ?thesis
    by (simp add: execa_command_sel)
qed

lemma started_opts_exec_hela:
  "opts \<in> set (started_opts (snd (exec_hela proc_env run cmds options))) \<Longrightarrow>
     opts = options_hela proc_env options"
  by (auto simp: exec_hela_def options_hela_def Let_def dest: started_opts_exec_loop)

lemma started_opts_exec_execa:
  "opts \<in> set (started_opts (snd (exec_execa run sched cmds options))) \<Longrightarrow>
     opts = options_execa options"
  by (auto simp: exec_execa_def options_execa_def Let_def dest: started_opts_pMap)

lemma options_hela_shell:
  "options_hela proc_env (Some (with_shell options)) ''shell'' = Some (JBool True)"
  by (simp add: options_hela_def with_shell_def object_assign_def assign_source_def)

lemma options_execa_shell:
  "options_execa (Some (with_shell options)) ''shell'' = Some (JBool True)"
  by (simp add: options_execa_def with_shell_def object_assign_def assign_source_def
      rest_options_def merged_options_def)

text \<open>
  C4. \<open>shell(cmds, options)\<close> is \<open>exec(cmds, options')\<close> where \<open>options'\<close> is \<open>options\<close>
  with \<open>shell\<close> set to true, whatever the caller put there, and every other key as the
  caller gave it; so every process \<open>shell\<close> starts is run with \<open>shell = true\<close>. This
  holds in both packages; normalization, concurrency and failure are those of \<open>exec\<close>.
\<close>

theorem shell_is_exec_with_shell_true:
  "shell_execa run sched cmds options = exec_execa run sched cmds (Some (with_shell options))
   \<and> shell_hela proc_env run cmds options = exec_hela proc_env run cmds (Some (with_shell options))
   \<and> with_shell options ''shell'' = Some (JBool True)
   \<and> (\<forall>k. k \<noteq> ''shell'' \<longrightarrow> with_shell options k = assign_source options k)
   \<and> (\<forall>opts\<in>set (started_opts (snd (shell_execa run sched cmds options))).
         opts ''shell'' = Some (JBool True))
   \<and> (\<forall>opts\<in>set (started_opts (snd (shell_hela proc_env run cmds options))).
         opts ''shell'' = Some (JBool True))"
proof -
  have a: "shell_execa run sched cmds options = exec_execa run sched cmds (Some (with_shell options))"
    by (simp add: shell_execa_def with_shell_def object_assign_def)
  have b: "shell_hela proc_env run cmds options = exec_hela proc_env run cmds (Some (with_shell options))"
    by (simp add: shell_hela_def with_shell_def object_assign_def)
  have c: "\<forall>opts\<in>set (started_opts (snd (shell_execa run sched cmds options))).
         opts ''shell'' = Some (JBool True)"
    unfolding a using started_opts_exec_execa options_execa_shell by blast
  have d: "\<forall>opts\<in>set (started_opts (snd (shell_hela proc_env run cmds options))).
         opts ''shell'' = Some (JBool True)"
    unfolding b using started_opts_exec_hela options_hela_shell by blast
  show ?thesis
    using a b c d by (simp add: with_shell_def)
qed

theorem shell_is_exec_with_shell_true_witness:
  "shell_execa (\<lambda>cmd opts. Inr (get_prop opts ''shell'')) [] (JStr ''echo $HOME'')
       (Some [''shell'' \<mapsto> JBool False])
     = exec_execa (\<lambda>cmd opts. Inr (get_prop opts ''shell'')) [] (JStr ''echo $HOME'')
       (Some (with_shell (Some [''shell'' \<mapsto> JBool False])))
   \<and> exec_execa (\<lambda>cmd opts. Inr (get_prop opts ''shell'')) [] (JStr ''echo $HOME'')
       (Some (with_shell (Some [''shell'' \<mapsto> JBool False])))
     = (Resolved (JArr [JBool True]),
        [Started 0 (JStr ''echo $HOME'') [''preferLocal'' \<mapsto> JBool True, ''shell'' \<mapsto> JBool True],
         Finished 0])"
proof
  show "shell_execa (\<lambda>cmd opts. Inr (get_prop opts ''shell'')) [] (JStr ''echo $HOME'')
       (Some [''shell'' \<mapsto> JBool False])
     = exec_execa (\<lambda>cmd opts. Inr (get_prop opts ''shell'')) [] (JStr ''echo $HOME'')
       (Some (with_shell (Some [''shell'' \<mapsto> JBool False])))"
    by (rule shell_is_exec_with_shell_true[THEN conjunct1])
  show "exec_execa (\<lambda>cmd opts. Inr (get_prop opts ''shell'')) [] (JStr ''echo $HOME'')
       (Some (with_shell (Some [''shell'' \<mapsto> JBool False])))
     = (Resolved (JArr [JBool True]),
        [Started 0 (JStr ''echo $HOME'') [''preferLocal'' \<mapsto> JBool True, ''shell'' \<mapsto> JBool True],
         Finished 0])"
    by (simp add: with_shell_def assign_source_def exec_execa_def pMap_def
      pMap_loop.simps normalize_commands_def merged_options_def concurrency_of_def
      rest_options_def object_assign_def execa_command_def pick_def
      remove_nth_def get_prop_def)
qed

lemma to_limit_Some_nonzero: "to_limit c = Some lim \<Longrightarrow> lim \<noteq> AtMost 0"
  by (cases c) (auto split: if_splits)


lemma pMap_rejects:
  assumes "to_limit concurrency \<noteq> None"
    and "x \<in> set xs" and "spawn_outcome (mapper x) = Inl e"
  shows "\<exists>x e. x \<in> set xs \<and> spawn_outcome (mapper x) = Inl e
           \<and> fst (pMap xs mapper concurrency sched) = Rejected e"
proof -
  from assms(1) obtain lim where l: "to_limit concurrency = Some lim" by auto
  from assms(2) obtain f where f: "f < length xs" "xs ! f = x"
    by (auto simp: in_set_conv_nth)
  have "\<exists>x e. x \<in> set xs \<and> spawn_outcome (mapper x) = Inl e
          \<and> fst (pMap_loop mapper lim xs sched 0 [] (replicate (length xs) JUndefined)) = Rejected e"
  proof (rule pMap_loop_rejects[OF to_limit_Some_nonzero[OF l]])
    show "\<exists>f<length xs. (\<exists>e. spawn_outcome (mapper (xs ! f)) = Inl e) \<and> (0 \<le> f \<or> f \<in> fst ` set [])"
      using f assms(3) by auto
  qed simp_all
  with l show ?thesis by (simp add: pMap_def)
qed




lemma JObj_neq: "m k \<noteq> m' k \<Longrightarrow> JObj m \<noteq> JObj m'"
  by auto

text \<open>
  C2, as stated, fails in @tunnckocore/execa. Both commands fail, each with an error
  that carries its command; under the default, unbounded concurrency both are in
  flight, and when the second ends first (schedule \<open>[1]\<close>) the batch rejects with the
  error of \<open>exit 2\<close>, not with that of \<open>exit 1\<close>, the first failing command of the input.
\<close>

theorem rejection_not_first_in_input_order:
  "fst (exec_execa (\<lambda>cmd opts. Inl (JObj [''command'' \<mapsto> cmd])) [1]
         (JArr [JStr ''exit 1'', JStr ''exit 2'']) None)
     = Rejected (JObj [''command'' \<mapsto> JStr ''exit 2''])
   \<and> fst (exec_execa (\<lambda>cmd opts. Inl (JObj [''command'' \<mapsto> cmd])) [1]
         (JArr [JStr ''exit 1'', JStr ''exit 2'']) None)
     \<noteq> Rejected (JObj [''command'' \<mapsto> JStr ''exit 1''])"
proof -
  have e: "fst (exec_execa (\<lambda>cmd opts. Inl (JObj [''command'' \<mapsto> cmd])) [1]
         (JArr [JStr ''exit 1'', JStr ''exit 2'']) None)
     = Rejected (JObj [''command'' \<mapsto> JStr ''exit 2''])"
    by (simp add: exec_execa_def pMap_def pMap_loop.simps normalize_commands_def
      merged_options_def concurrency_of_def rest_options_def object_assign_def assign_source_def
      execa_command_def pick_def remove_nth_def)
  have "JObj [''command'' \<mapsto> JStr ''exit 2''] \<noteq> JObj [''command'' \<mapsto> JStr ''exit 1'']"
    by (rule JObj_neq[of _ "''command''"]) simp
  with e show ?thesis by simp
qed

lemma pMap_serial:
  "snd (pMap xs (\<lambda>cmd. execa_command run cmd opts) (JNum 1) sched) = snd (exec_loop run opts 0 xs)
   \<and> (\<forall>e. fst (exec_loop run opts 0 xs) = Rejected e \<longrightarrow>
         fst (pMap xs (\<lambda>cmd. execa_command run cmd opts) (JNum 1) sched) = Rejected e)"
  using pMap_loop_serial[of 0 xs run opts sched "replicate (length xs) JUndefined"]
  by (simp add: pMap_def)

lemma pMap_loop_rejected_last:
  "fst (pMap_loop mapper lim xs sched k inflight ret) = Rejected e \<Longrightarrow>
   \<forall>q\<in>set inflight. fst q < length xs \<and> snd q = mapper (xs ! fst q) \<Longrightarrow>
   \<exists>pre i. snd (pMap_loop mapper lim xs sched k inflight ret) = pre @ [Finished i]
        \<and> i < length xs \<and> spawn_outcome (mapper (xs ! i)) = Inl e
        \<and> (\<forall>j. Finished j \<in> set pre \<longrightarrow>
               j < length xs \<and> (\<exists>v. spawn_outcome (mapper (xs ! j)) = Inr v))"
proof (induction mapper lim xs sched k inflight ret rule: pMap_loop.induct)
  case (1 mapper lim xs sched k inflight ret)
  note rej = "1.prems"(1) and inv = "1.prems"(2)
  show ?case
  proof (cases "k < length xs \<and> has_room lim (length inflight)")
    case True
    let ?rec = "pMap_loop mapper lim xs sched (Suc k) (inflight @ [(k, mapper (xs ! k))]) ret"
    have r: "fst ?rec = Rejected e"
      using rej True by (simp add: pMap_loop_start)
    have "\<forall>q\<in>set (inflight @ [(k, mapper (xs ! k))]).
            fst q < length xs \<and> snd q = mapper (xs ! fst q)"
      using inv True by auto
    from "1.IH"(1)[OF True refl r this] obtain pre i where
      p: "snd ?rec = pre @ [Finished i]" "i < length xs" "spawn_outcome (mapper (xs ! i)) = Inl e"
         "\<forall>j. Finished j \<in> set pre \<longrightarrow> j < length xs \<and> (\<exists>v. spawn_outcome (mapper (xs ! j)) = Inr v)"
      by blast
    let ?s = "Started k (spawn_cmd (mapper (xs ! k))) (spawn_opts (mapper (xs ! k)))"
    have "snd (pMap_loop mapper lim xs sched k inflight ret) = (?s # pre) @ [Finished i]"
      using True p(1) by (simp add: pMap_loop_start)
    moreover have "\<forall>j. Finished j \<in> set (?s # pre) \<longrightarrow>
                     j < length xs \<and> (\<exists>v. spawn_outcome (mapper (xs ! j)) = Inr v)"
      using p(4) by simp
    ultimately show ?thesis using p(2,3) by blast
  next
    case False
    show ?thesis
    proof (cases "inflight = []")
      case True
      with False rej show ?thesis
        by (simp add: pMap_loop_done split: if_splits)
    next
      case ne: False
      define j where "j = pick sched (length inflight)"
      define i where "i = fst (inflight ! j)"
      define p where "p = snd (inflight ! j)"
      have j: "j < length inflight" using ne by (simp add: j_def pick_less)
      then have mem: "inflight ! j \<in> set inflight" by simp
      with inv have il: "i < length xs" and pm: "p = mapper (xs ! i)"
        by (auto simp: i_def p_def)
      have sets: "set inflight = insert (inflight ! j) (set (remove_nth j inflight))"
        using j by (rule remove_nth_set)
      show ?thesis
      proof (cases "spawn_outcome p")
        case (Inl e')
        then have "pMap_loop mapper lim xs sched k inflight ret = (Rejected e', [Finished i])"
          by (simp add: pMap_loop_finish[OF False ne] j_def[symmetric] p_def[symmetric] i_def[symmetric])
        with rej Inl il pm show ?thesis
          by (intro exI[of _ "[]"] exI[of _ i]) simp
      next
        case (Inr v)
        let ?rec = "pMap_loop mapper lim xs (tl sched) k (remove_nth j inflight) (ret[i := v])"
        have u: "pMap_loop mapper lim xs sched k inflight ret = apsnd ((#) (Finished i)) ?rec"
          using Inr
          by (simp add: pMap_loop_finish[OF False ne] j_def[symmetric] p_def[symmetric] i_def[symmetric])
        then have r: "fst ?rec = Rejected e" using rej by simp
        have "\<forall>q\<in>set (remove_nth j inflight). fst q < length xs \<and> snd q = mapper (xs ! fst q)"
          using inv sets by blast
        from "1.IH"(2)[OF False ne j_def i_def p_def Inr r this] obtain pre i' where
          q: "snd ?rec = pre @ [Finished i']" "i' < length xs"
             "spawn_outcome (mapper (xs ! i')) = Inl e"
             "\<forall>j. Finished j \<in> set pre \<longrightarrow> j < length xs \<and> (\<exists>v. spawn_outcome (mapper (xs ! j)) = Inr v)"
          by blast
        have "snd (pMap_loop mapper lim xs sched k inflight ret) = (Finished i # pre) @ [Finished i']"
          using u q(1) by simp
        moreover have "\<forall>j. Finished j \<in> set (Finished i # pre) \<longrightarrow>
                         j < length xs \<and> (\<exists>v. spawn_outcome (mapper (xs ! j)) = Inr v)"
          using q(4) il pm Inr by auto
        ultimately show ?thesis using q(2,3) by blast
      qed
    qed
  qed
qed

lemma pMap_rejected_last:
  assumes "fst (pMap xs mapper concurrency sched) = Rejected e"
    and "to_limit concurrency \<noteq> None"
  shows "\<exists>pre i. snd (pMap xs mapper concurrency sched) = pre @ [Finished i]
        \<and> i < length xs \<and> spawn_outcome (mapper (xs ! i)) = Inl e
        \<and> (\<forall>j. Finished j \<in> set pre \<longrightarrow>
               j < length xs \<and> (\<exists>v. spawn_outcome (mapper (xs ! j)) = Inr v))"
proof -
  from assms(2) obtain lim where l: "to_limit concurrency = Some lim" by auto
  with assms(1) have "fst (pMap_loop mapper lim xs sched 0 [] (replicate (length xs) JUndefined)) = Rejected e"
    by (simp add: pMap_def)
  from pMap_loop_rejected_last[OF this] l show ?thesis
    by (simp add: pMap_def)
qed

text \<open>
  C2, amended. A batch with a failing command rejects. In hela-core, whose loop is
  serial, and in @tunnckocore/execa with \<open>concurrency = 1\<close>, the error is that of the
  first failing command in input order. In @tunnckocore/execa with any accepted
  \<open>concurrency\<close> and any order of completion, the batch rejects with the error of the
  failing command whose failure surfaces first: the trace of the batch ends with the
  end of that command, and every command that ended before it succeeded.
\<close>

theorem first_failure_rejects:
  "(normalize_commands cmds = pre @ cmd # rest
      \<and> (\<forall>c\<in>set pre. \<exists>v. run c (options_hela proc_env options) = Inr v)
      \<and> run cmd (options_hela proc_env options) = Inl e
     \<longrightarrow> fst (exec_hela proc_env run cmds options) = Rejected e)
   \<and> (concurrency_of (merged_options options) = JNum 1
      \<and> normalize_commands cmds = pre @ cmd # rest
      \<and> (\<forall>c\<in>set pre. \<exists>v. run c (options_execa options) = Inr v)
      \<and> run cmd (options_execa options) = Inl e
     \<longrightarrow> fst (exec_execa run sched cmds options) = Rejected e)
   \<and> (valid_concurrency options
      \<and> (\<exists>c\<in>set (normalize_commands cmds). \<exists>e'. run c (options_execa options) = Inl e')
     \<longrightarrow> (\<exists>i e' before.
            i < length (normalize_commands cmds)
          \<and> run (normalize_commands cmds ! i) (options_execa options) = Inl e'
          \<and> fst (exec_execa run sched cmds options) = Rejected e'
          \<and> snd (exec_execa run sched cmds options) = before @ [Finished i]
          \<and> (\<forall>j. Finished j \<in> set before \<longrightarrow>
                 j < length (normalize_commands cmds)
               \<and> (\<exists>v. run (normalize_commands cmds ! j) (options_execa options) = Inr v))))"
proof (intro conjI impI)
  assume "normalize_commands cmds = pre @ cmd # rest
      \<and> (\<forall>c\<in>set pre. \<exists>v. run c (options_hela proc_env options) = Inr v)
      \<and> run cmd (options_hela proc_env options) = Inl e"
  then show "fst (exec_hela proc_env run cmds options) = Rejected e"
    unfolding exec_hela_def Let_def options_hela_def[symmetric]
    by (simp add: exec_loop_first_failure)
next
  assume a: "concurrency_of (merged_options options) = JNum 1
      \<and> normalize_commands cmds = pre @ cmd # rest
      \<and> (\<forall>c\<in>set pre. \<exists>v. run c (options_execa options) = Inr v)
      \<and> run cmd (options_execa options) = Inl e"
  then have "fst (exec_loop run (options_execa options) 0 (normalize_commands cmds)) = Rejected e"
    by (simp add: exec_loop_first_failure)
  with a show "fst (exec_execa run sched cmds options) = Rejected e"
    unfolding exec_execa_def Let_def options_execa_def[symmetric]
    using pMap_serial by simp
next
  assume a: "valid_concurrency options
      \<and> (\<exists>c\<in>set (normalize_commands cmds). \<exists>e'. run c (options_execa options) = Inl e')"
  then obtain c e' where c: "c \<in> set (normalize_commands cmds)"
    "spawn_outcome (execa_command run c (options_execa options)) = Inl e'"
    by (auto simp: execa_command_sel)
  from a have v: "to_limit (concurrency_of (merged_options options)) \<noteq> None"
    by (simp add: valid_concurrency_def)
  let ?M = "\<lambda>cmd. execa_command run cmd (options_execa options)"
  let ?P = "pMap (normalize_commands cmds) ?M (concurrency_of (merged_options options)) sched"
  have ex: "exec_execa run sched cmds options = ?P"
    by (simp add: exec_execa_def Let_def options_execa_def)
  from pMap_rejects[where mapper = ?M, OF v c, of sched]
  obtain e'' where r: "fst ?P = Rejected e''"
    by blast
  from pMap_rejected_last[OF r v] obtain before i where
    t: "snd ?P = before @ [Finished i]" "i < length (normalize_commands cmds)"
       "spawn_outcome (?M (normalize_commands cmds ! i)) = Inl e''"
       "\<forall>j. Finished j \<in> set before \<longrightarrow>
              j < length (normalize_commands cmds)
            \<and> (\<exists>v. spawn_outcome (?M (normalize_commands cmds ! j)) = Inr v)"
    by blast
  show "\<exists>i e' before.
            i < length (normalize_commands cmds)
          \<and> run (normalize_commands cmds ! i) (options_execa options) = Inl e'
          \<and> fst (exec_execa run sched cmds options) = Rejected e'
          \<and> snd (exec_execa run sched cmds options) = before @ [Finished i]
          \<and> (\<forall>j. Finished j \<in> set before \<longrightarrow>
                 j < length (normalize_commands cmds)
               \<and> (\<exists>v. run (normalize_commands cmds ! j) (options_execa options) = Inr v))"
    unfolding ex using r t
    by (intro exI[of _ i] exI[of _ e''] exI[of _ before]) (simp add: execa_command_sel)
qed

theorem first_failure_rejects_witness:
  "fst (exec_hela (JObj Map.empty)
         (\<lambda>cmd opts. if cmd = JStr ''echo ok'' then Inr (JStr ''ok'') else Inl (JObj [''command'' \<mapsto> cmd]))
         (JArr [JStr ''echo ok'', JStr ''exit 3'', JStr ''exit 4'']) None)
     = Rejected (JObj [''command'' \<mapsto> JStr ''exit 3''])
   \<and> fst (exec_execa
         (\<lambda>cmd opts. if cmd = JStr ''echo ok'' then Inr (JStr ''ok'') else Inl (JObj [''command'' \<mapsto> cmd]))
         [] (JArr [JStr ''echo ok'', JStr ''exit 3'', JStr ''exit 4''])
         (Some [''concurrency'' \<mapsto> JNum 1]))
     = Rejected (JObj [''command'' \<mapsto> JStr ''exit 3''])
   \<and> (\<exists>i e' before.
          i < length (normalize_commands (JArr [JStr ''echo ok'', JStr ''exit 3'', JStr ''exit 4'']))
        \<and> (if normalize_commands (JArr [JStr ''echo ok'', JStr ''exit 3'', JStr ''exit 4'']) ! i
                = JStr ''echo ok''
            then Inr (JStr ''ok'')
            else Inl (JObj [''command'' \<mapsto>
                   normalize_commands (JArr [JStr ''echo ok'', JStr ''exit 3'', JStr ''exit 4'']) ! i]))
            = Inl e'
        \<and> fst (exec_execa
                (\<lambda>cmd opts. if cmd = JStr ''echo ok'' then Inr (JStr ''ok'')
                             else Inl (JObj [''command'' \<mapsto> cmd]))
                [0, 1] (JArr [JStr ''echo ok'', JStr ''exit 3'', JStr ''exit 4'']) None)
            = Rejected e'
        \<and> snd (exec_execa
                (\<lambda>cmd opts. if cmd = JStr ''echo ok'' then Inr (JStr ''ok'')
                             else Inl (JObj [''command'' \<mapsto> cmd]))
                [0, 1] (JArr [JStr ''echo ok'', JStr ''exit 3'', JStr ''exit 4'']) None)
            = before @ [Finished i])
   \<and> exec_execa
        (\<lambda>cmd opts. if cmd = JStr ''echo ok'' then Inr (JStr ''ok'')
                     else Inl (JObj [''command'' \<mapsto> cmd]))
        [0, 1] (JArr [JStr ''echo ok'', JStr ''exit 3'', JStr ''exit 4'']) None
      = (Rejected (JObj [''command'' \<mapsto> JStr ''exit 4'']),
         [Started 0 (JStr ''echo ok'') [''preferLocal'' \<mapsto> JBool True],
          Started 1 (JStr ''exit 3'') [''preferLocal'' \<mapsto> JBool True],
          Started 2 (JStr ''exit 4'') [''preferLocal'' \<mapsto> JBool True],
          Finished 0, Finished 2])"
proof (intro conjI)
  let ?run = "\<lambda>cmd (opts::obj). if cmd = JStr ''echo ok'' then Inr (JStr ''ok'')
                else Inl (JObj [''command'' \<mapsto> cmd])"
  let ?cmds = "JArr [JStr ''echo ok'', JStr ''exit 3'', JStr ''exit 4'']"
  have n: "normalize_commands ?cmds = [JStr ''echo ok''] @ JStr ''exit 3'' # [JStr ''exit 4'']"
    by (simp add: normalize_commands_def)
  show "fst (exec_hela (JObj Map.empty) ?run ?cmds None)
          = Rejected (JObj [''command'' \<mapsto> JStr ''exit 3''])"
    by (rule first_failure_rejects[where pre = "[JStr ''echo ok'']" and cmd = "JStr ''exit 3''"
          and rest = "[JStr ''exit 4'']", THEN conjunct1, rule_format])
       (simp add: n)
  have c: "concurrency_of (merged_options (Some [''concurrency'' \<mapsto> JNum 1])) = JNum 1"
    by (simp add: concurrency_of_def merged_options_def object_assign_def assign_source_def)
  show "fst (exec_execa ?run [] ?cmds (Some [''concurrency'' \<mapsto> JNum 1]))
          = Rejected (JObj [''command'' \<mapsto> JStr ''exit 3''])"
    by (rule first_failure_rejects[where pre = "[JStr ''echo ok'']" and cmd = "JStr ''exit 3''"
          and rest = "[JStr ''exit 4'']", THEN conjunct2, THEN conjunct1, rule_format])
       (simp add: n c)
  have v: "valid_concurrency None"
    by (simp add: valid_concurrency_def concurrency_of_def merged_options_def object_assign_def
        assign_source_def)
  have f: "\<exists>c\<in>set (normalize_commands ?cmds). \<exists>e'. ?run c (options_execa None) = Inl e'"
    by (simp add: normalize_commands_def)
  from first_failure_rejects[THEN conjunct2, THEN conjunct2, rule_format, OF conjI[OF v f],
      where sched = "[0, 1]"]
  show "\<exists>i e' before.
          i < length (normalize_commands ?cmds)
        \<and> (if normalize_commands ?cmds ! i = JStr ''echo ok''
            then Inr (JStr ''ok'')
            else Inl (JObj [''command'' \<mapsto> normalize_commands ?cmds ! i]))
            = Inl e'
        \<and> fst (exec_execa ?run [0, 1] ?cmds None) = Rejected e'
        \<and> snd (exec_execa ?run [0, 1] ?cmds None) = before @ [Finished i]"
    by blast
  show "exec_execa ?run [0, 1] ?cmds None
      = (Rejected (JObj [''command'' \<mapsto> JStr ''exit 4'']),
         [Started 0 (JStr ''echo ok'') [''preferLocal'' \<mapsto> JBool True],
          Started 1 (JStr ''exit 3'') [''preferLocal'' \<mapsto> JBool True],
          Started 2 (JStr ''exit 4'') [''preferLocal'' \<mapsto> JBool True],
          Finished 0, Finished 2])"
    by (simp add: exec_execa_def pMap_def pMap_loop.simps normalize_commands_def
      merged_options_def concurrency_of_def rest_options_def object_assign_def assign_source_def
      execa_command_def pick_def remove_nth_def)
qed


text \<open>
  C3. With \<open>concurrency = 1\<close> the trace of \<open>exec\<close> of @tunnckocore/execa is serial,
  whatever the schedule: the commands start in input order and each has ended when the
  next one starts, up to and including the first command that fails; the loop of
  hela-core's \<open>exec\<close> is serial for every options record. When no command fails the
  whole filtered list is run.
\<close>

theorem serial_when_concurrency_one:
  "snd (exec_hela proc_env run cmds options)
     = serial_trace (options_hela proc_env options) 0
         (until_failure run (options_hela proc_env options) (normalize_commands cmds))
   \<and> (concurrency_of (merged_options options) = JNum 1 \<longrightarrow>
        snd (exec_execa run sched cmds options)
          = serial_trace (options_execa options) 0
              (until_failure run (options_execa options) (normalize_commands cmds)))
   \<and> ((\<forall>cmd\<in>set (normalize_commands cmds). \<exists>v. run cmd opts = Inr v) \<longrightarrow>
        until_failure run opts (normalize_commands cmds) = normalize_commands cmds)"
proof (intro conjI impI)
  show "snd (exec_hela proc_env run cmds options)
     = serial_trace (options_hela proc_env options) 0
         (until_failure run (options_hela proc_env options) (normalize_commands cmds))"
    unfolding exec_hela_def Let_def options_hela_def[symmetric]
    by (rule exec_loop_trace)
next
  assume "concurrency_of (merged_options options) = JNum 1"
  then show "snd (exec_execa run sched cmds options)
          = serial_trace (options_execa options) 0
              (until_failure run (options_execa options) (normalize_commands cmds))"
    unfolding exec_execa_def Let_def options_execa_def[symmetric]
    using pMap_serial by (simp add: exec_loop_trace)
next
  assume "\<forall>cmd\<in>set (normalize_commands cmds). \<exists>v. run cmd opts = Inr v"
  then show "until_failure run opts (normalize_commands cmds) = normalize_commands cmds"
    by (rule until_failure_all_succeed)
qed

theorem serial_when_concurrency_one_witness:
  "snd (exec_execa (\<lambda>cmd opts. Inr cmd) [3, 1] (JArr [JStr ''echo a'', JStr ''echo b''])
         (Some [''concurrency'' \<mapsto> JNum 1]))
     = serial_trace (options_execa (Some [''concurrency'' \<mapsto> JNum 1])) 0
         (until_failure (\<lambda>cmd opts. Inr cmd) (options_execa (Some [''concurrency'' \<mapsto> JNum 1]))
            (normalize_commands (JArr [JStr ''echo a'', JStr ''echo b''])))
   \<and> serial_trace (options_execa (Some [''concurrency'' \<mapsto> JNum 1])) 0
         (until_failure (\<lambda>cmd opts. Inr cmd) (options_execa (Some [''concurrency'' \<mapsto> JNum 1]))
            (normalize_commands (JArr [JStr ''echo a'', JStr ''echo b''])))
     = [Started 0 (JStr ''echo a'') [''preferLocal'' \<mapsto> JBool True], Finished 0,
        Started 1 (JStr ''echo b'') [''preferLocal'' \<mapsto> JBool True], Finished 1]"
proof
  have c: "concurrency_of (merged_options (Some [''concurrency'' \<mapsto> JNum 1])) = JNum 1"
    by (simp add: concurrency_of_def merged_options_def object_assign_def assign_source_def)
  show "snd (exec_execa (\<lambda>cmd opts. Inr cmd) [3, 1] (JArr [JStr ''echo a'', JStr ''echo b''])
         (Some [''concurrency'' \<mapsto> JNum 1]))
     = serial_trace (options_execa (Some [''concurrency'' \<mapsto> JNum 1])) 0
         (until_failure (\<lambda>cmd opts. Inr cmd) (options_execa (Some [''concurrency'' \<mapsto> JNum 1]))
            (normalize_commands (JArr [JStr ''echo a'', JStr ''echo b''])))"
    by (rule serial_when_concurrency_one[THEN conjunct2, THEN conjunct1, rule_format]) (rule c)
  have o: "options_execa (Some [''concurrency'' \<mapsto> JNum 1]) = [''preferLocal'' \<mapsto> JBool True]"
    by (auto simp: options_execa_def rest_options_def merged_options_def object_assign_def
        assign_source_def)
  show "serial_trace (options_execa (Some [''concurrency'' \<mapsto> JNum 1])) 0
         (until_failure (\<lambda>cmd opts. Inr cmd) (options_execa (Some [''concurrency'' \<mapsto> JNum 1]))
            (normalize_commands (JArr [JStr ''echo a'', JStr ''echo b''])))
     = [Started 0 (JStr ''echo a'') [''preferLocal'' \<mapsto> JBool True], Finished 0,
        Started 1 (JStr ''echo b'') [''preferLocal'' \<mapsto> JBool True], Finished 1]"
    by (simp add: o normalize_commands_def)
qed

lemma pMap_unbounded:
  "\<exists>rest. snd (pMap xs (\<lambda>cmd. execa_command run cmd opts) JInfinity sched) =
     map (\<lambda>i. Started i (xs ! i) opts) [0..<length xs] @ rest
     \<and> (\<forall>ev\<in>set rest. is_finished ev)"
  using pMap_loop_unbounded[of 0 xs "\<lambda>cmd. execa_command run cmd opts" sched "[]"
      "replicate (length xs) JUndefined"]
  by (simp add: pMap_def execa_command_sel)

text \<open>
  C5, as stated, fails in hela-core: called without options, its \<open>exec\<close> hands the
  runner \<open>{ stdio: 'inherit', env: proc.env }\<close>, where \<open>preferLocal\<close> is not set, and the
  second command starts only when the first has ended.
\<close>

theorem hela_exec_defaults_differ:
  "snd (exec_hela (JObj [''PATH'' \<mapsto> JStr ''/bin'']) (\<lambda>cmd opts. Inr cmd)
         (JArr [JStr ''echo a'', JStr ''echo b'']) None)
     = [Started 0 (JStr ''echo a'')
          [''stdio'' \<mapsto> JStr ''inherit'', ''env'' \<mapsto> JObj [''PATH'' \<mapsto> JStr ''/bin'']],
        Finished 0,
        Started 1 (JStr ''echo b'')
          [''stdio'' \<mapsto> JStr ''inherit'', ''env'' \<mapsto> JObj [''PATH'' \<mapsto> JStr ''/bin'']],
        Finished 1]
   \<and> [''stdio'' \<mapsto> JStr ''inherit'', ''env'' \<mapsto> JObj [''PATH'' \<mapsto> JStr ''/bin'']] ''preferLocal''
       = None"
  by (simp add: exec_hela_def normalize_commands_def object_assign_def assign_source_def
      defaultOptions_def execa_command_def)

text \<open>
  C5, amended. In @tunnckocore/execa every process \<open>exec\<close> starts is handed the
  caller's options merged over \<open>{ preferLocal: true }\<close>, verbatim but for the key
  \<open>concurrency\<close>, which is removed. When the caller's options omit \<open>preferLocal\<close> and
  \<open>concurrency\<close>, these are the caller's options with \<open>preferLocal = true\<close> added, the
  limit is \<open>Infinity\<close>, and all commands of the filtered list are started, in order,
  before any of them ends.
\<close>

theorem exec_execa_default_options:
  "(\<forall>opts\<in>set (started_opts (snd (exec_execa run sched cmds options))).
       opts = ([''preferLocal'' \<mapsto> JBool True] ++ assign_source options)(''concurrency'' := None))
   \<and> (assign_source options ''preferLocal'' = None \<and> assign_source options ''concurrency'' = None
      \<longrightarrow> options_execa options = (assign_source options)(''preferLocal'' \<mapsto> JBool True)
        \<and> concurrency_of (merged_options options) = JInfinity
        \<and> (\<exists>rest. snd (exec_execa run sched cmds options)
               = map (\<lambda>i. Started i (normalize_commands cmds ! i)
                              ((assign_source options)(''preferLocal'' \<mapsto> JBool True)))
                   [0..<length (normalize_commands cmds)] @ rest
             \<and> (\<forall>ev\<in>set rest. is_finished ev)))"
proof (intro conjI impI ballI)
  fix opts assume "opts \<in> set (started_opts (snd (exec_execa run sched cmds options)))"
  then show "opts = ([''preferLocal'' \<mapsto> JBool True] ++ assign_source options)(''concurrency'' := None)"
    by (auto dest!: started_opts_exec_execa
        simp: options_execa_def rest_options_def merged_options_def object_assign_def)
next
  assume a: "assign_source options ''preferLocal'' = None \<and> assign_source options ''concurrency'' = None"
  show o: "options_execa options = (assign_source options)(''preferLocal'' \<mapsto> JBool True)"
    using a
    by (auto simp: options_execa_def rest_options_def merged_options_def object_assign_def
        map_add_def fun_eq_iff split: option.splits)
  show c: "concurrency_of (merged_options options) = JInfinity"
    using a by (simp add: concurrency_of_def merged_options_def object_assign_def map_add_def)
  show "\<exists>rest. snd (exec_execa run sched cmds options)
               = map (\<lambda>i. Started i (normalize_commands cmds ! i)
                              ((assign_source options)(''preferLocal'' \<mapsto> JBool True)))
                   [0..<length (normalize_commands cmds)] @ rest
             \<and> (\<forall>ev\<in>set rest. is_finished ev)"
    unfolding exec_execa_def Let_def options_execa_def[symmetric] c o[symmetric]
    by (rule pMap_unbounded)
qed

theorem exec_execa_default_options_witness:
  "options_execa (Some [''stdio'' \<mapsto> JStr ''inherit''])
     = [''stdio'' \<mapsto> JStr ''inherit'', ''preferLocal'' \<mapsto> JBool True]
   \<and> snd (exec_execa (\<lambda>cmd opts. Inr cmd) [1] (JArr [JStr ''echo a'', JStr ''echo b''])
         (Some [''stdio'' \<mapsto> JStr ''inherit'']))
     = [Started 0 (JStr ''echo a'') [''preferLocal'' \<mapsto> JBool True, ''stdio'' \<mapsto> JStr ''inherit''],
        Started 1 (JStr ''echo b'') [''preferLocal'' \<mapsto> JBool True, ''stdio'' \<mapsto> JStr ''inherit''],
        Finished 1, Finished 0]"
proof
  show "options_execa (Some [''stdio'' \<mapsto> JStr ''inherit''])
     = [''stdio'' \<mapsto> JStr ''inherit'', ''preferLocal'' \<mapsto> JBool True]"
    using exec_execa_default_options[THEN conjunct2, rule_format, THEN conjunct1,
        of "Some [''stdio'' \<mapsto> JStr ''inherit'']"]
    by (simp add: assign_source_def)
  show "snd (exec_execa (\<lambda>cmd opts. Inr cmd) [1] (JArr [JStr ''echo a'', JStr ''echo b''])
         (Some [''stdio'' \<mapsto> JStr ''inherit'']))
     = [Started 0 (JStr ''echo a'') [''preferLocal'' \<mapsto> JBool True, ''stdio'' \<mapsto> JStr ''inherit''],
        Started 1 (JStr ''echo b'') [''preferLocal'' \<mapsto> JBool True, ''stdio'' \<mapsto> JStr ''inherit''],
        Finished 1, Finished 0]"
    by (simp add: exec_execa_def pMap_def pMap_loop.simps normalize_commands_def
      merged_options_def concurrency_of_def rest_options_def object_assign_def assign_source_def
      execa_command_def pick_def remove_nth_def)
qed

end
